theory Spec2Isabelle
  imports Complex_Main
begin

section \<open>The image-to-PDF tool component (ImageToPDFTool.tsx)\<close>

text \<open>
  The component keeps its state in React hooks and one mutable ref. The model is a
  record of that state and one function per handler. The conversion engine
  (\<open>imagesToPDF\<close>, \<open>imagesToPDFBatch\<close>) is imported by the component from another
  module; the handlers take what it returns as a parameter.
\<close>

subsection \<open>JavaScript numbers of the group-size field\<close>

text \<open>
  \<open>imagesPerPdf\<close> holds what \<open>parseInt\<close>, \<open>Math.min\<close> and \<open>Math.max\<close> return on
  integers: an integer-valued number, \<open>NaN\<close> or an infinity. \<open>-0\<close> and \<open>+0\<close> are both
  \<open>Fin 0\<close> (both are falsy and compare equal).
\<close>

datatype jsnum = NaN | NegInf | Fin int | PosInf

text \<open>The relation \<open>a < b\<close> of JavaScript: false as soon as one side is \<open>NaN\<close>.\<close>

fun js_lt :: "jsnum \<Rightarrow> jsnum \<Rightarrow> bool" where
  "js_lt NaN _ = False"
| "js_lt _ NaN = False"
| "js_lt NegInf NegInf = False"
| "js_lt NegInf _ = True"
| "js_lt (Fin a) NegInf = False"
| "js_lt (Fin a) (Fin b) = (a < b)"
| "js_lt (Fin a) PosInf = True"
| "js_lt PosInf _ = False"

text \<open>\<open>a > b\<close> is \<open>b < a\<close>.\<close>

definition js_gt :: "jsnum \<Rightarrow> jsnum \<Rightarrow> bool" where
  "js_gt a b = js_lt b a"

text \<open>\<open>Math.min(a, b)\<close> and \<open>Math.max(a, b)\<close>: \<open>NaN\<close> if either argument is.\<close>

fun Math_min :: "jsnum \<Rightarrow> jsnum \<Rightarrow> jsnum" where
  "Math_min NaN _ = NaN"
| "Math_min _ NaN = NaN"
| "Math_min a b = (if js_lt b a then b else a)"

fun Math_max :: "jsnum \<Rightarrow> jsnum \<Rightarrow> jsnum" where
  "Math_max NaN _ = NaN"
| "Math_max _ NaN = NaN"
| "Math_max a b = (if js_lt a b then b else a)"

text \<open>\<open>a || b\<close> on numbers: \<open>NaN\<close> and zero are falsy.\<close>

fun js_or :: "jsnum \<Rightarrow> jsnum \<Rightarrow> jsnum" where
  "js_or NaN b = b"
| "js_or (Fin a) b = (if a = 0 then b else Fin a)"
| "js_or a b = a"

subsection \<open>parseInt\<close>

text \<open>
  \<open>parseInt(s)\<close> with no radix: leading white space is skipped, then an optional sign,
  then an optional \<open>0x\<close>/\<open>0X\<close> prefix choosing radix 16, then the longest run of digits;
  no digit gives \<open>NaN\<close>. Strings are byte strings here, so the white space skipped is
  the ASCII part of JavaScript's (tab, line feed, vertical tab, form feed, carriage
  return, space). The value is the exact integer; JavaScript rounds it to a double,
  which is again integer-valued or an infinity, so every value JavaScript returns is
  a \<open>jsnum\<close>.
\<close>

definition isWhiteSpace :: "char \<Rightarrow> bool" where
  "isWhiteSpace c = (c \<in> set [CHR 0x09, CHR 0x0A, CHR 0x0B, CHR 0x0C, CHR 0x0D, CHR '' ''])"

definition digitValue :: "char \<Rightarrow> nat option" where
  "digitValue c =
     (let k = of_char c :: nat in
      if 48 \<le> k \<and> k \<le> 57 then Some (k - 48)
      else if 97 \<le> k \<and> k \<le> 122 then Some (k - 87)
      else if 65 \<le> k \<and> k \<le> 90 then Some (k - 55)
      else None)"

text \<open>The digits of radix \<open>r\<close> at the front of the string, read into an accumulator.\<close>

fun parseDigits :: "nat \<Rightarrow> string \<Rightarrow> nat option \<Rightarrow> nat option" where
  "parseDigits r [] acc = acc"
| "parseDigits r (c # cs) acc =
     (case digitValue c of
        None \<Rightarrow> acc
      | Some d \<Rightarrow>
          if d < r
          then parseDigits r cs (Some (r * (case acc of None \<Rightarrow> 0 | Some a \<Rightarrow> a) + d))
          else acc)"

definition parseUnsigned :: "string \<Rightarrow> nat option" where
  "parseUnsigned s =
     (case s of
        c1 # c2 # rest \<Rightarrow>
          if c1 = CHR ''0'' \<and> (c2 = CHR ''x'' \<or> c2 = CHR ''X'')
          then parseDigits 16 rest None
          else parseDigits 10 s None
      | _ \<Rightarrow> parseDigits 10 s None)"

definition parseInt :: "string \<Rightarrow> jsnum" where
  "parseInt s =
     (let t = dropWhile isWhiteSpace s in
      case t of
        [] \<Rightarrow> NaN
      | c # cs \<Rightarrow>
          if c = CHR ''-'' then
            (case parseUnsigned cs of None \<Rightarrow> NaN | Some n \<Rightarrow> Fin (- int n))
          else if c = CHR ''+'' then
            (case parseUnsigned cs of None \<Rightarrow> NaN | Some n \<Rightarrow> Fin (int n))
          else
            (case parseUnsigned t of None \<Rightarrow> NaN | Some n \<Rightarrow> Fin (int n)))"

subsection \<open>Files, options and results\<close>

text \<open>A browser \<open>File\<close>: its name, MIME type and size in bytes.\<close>

record File =
  name :: string
  mimeType :: string
  byteSize :: nat

text \<open>
  \<open>UploadedFile\<close>: the identifier and the preview URL are made by \<open>generateId\<close> and
  \<open>URL.createObjectURL\<close>.
\<close>

record UploadedFile =
  uid :: string
  ufile :: File
  preview :: string

type_synonym Blob = "nat list"

datatype ProcessingStatus = Idle | Uploading | Processing | Complete | Error

datatype PageSizeType = A4 | LETTER | LEGAL | A3 | A5 | FIT

datatype Orientation = Portrait | Landscape | Auto

record ImageToPDFOptions =
  opt_pageSize :: PageSizeType
  opt_orientation :: Orientation
  opt_margin :: real
  opt_centerImage :: bool
  opt_scaleToFit :: bool
  opt_svgScale :: real

record BatchExportResult =
  zipBlob :: Blob
  pdfCount :: nat
  imageCount :: nat

text \<open>
  What the engine resolves with: \<open>success\<close>, an optional \<open>result\<close> and an optional
  \<open>error\<close>, of which the component reads \<open>error?.message\<close>.
\<close>

record 'r ProcessOutput =
  out_success :: bool
  out_result :: "'r option"
  out_error_message :: "string option"

text \<open>What a rejected call throws: an \<open>Error\<close> with its message, or any other value.\<close>

datatype thrown = ErrorObject string | OtherValue

text \<open>An awaited engine call settles: it resolves with an output or throws.\<close>

type_synonym 'r settled = "thrown + 'r ProcessOutput"

record engine =
  imagesToPDF :: "File list \<Rightarrow> ImageToPDFOptions \<Rightarrow> Blob settled"
  imagesToPDFBatch :: "File list \<Rightarrow> jsnum \<Rightarrow> ImageToPDFOptions \<Rightarrow> BatchExportResult settled"

subsection \<open>The component state\<close>

record state =
  files :: "UploadedFile list"
  status :: ProcessingStatus
  progress :: real
  progressMessage :: string
  result :: "Blob option"
  error :: "string option"
  pageSize :: PageSizeType
  orientation :: Orientation
  margin :: real
  centerImage :: bool
  scaleToFit :: bool
  svgScale :: real
  batchMode :: bool
  imagesPerPdf :: jsnum
  batchResult :: "BatchExportResult option"
  cancelledRef :: bool

text \<open>The values the hooks are created with (lines 38 to 63).\<close>

definition initial_state :: state where
  "initial_state =
     \<lparr> files = [], status = Idle, progress = 0, progressMessage = [],
       result = None, error = None,
       pageSize = A4, orientation = Auto, margin = 36,
       centerImage = True, scaleToFit = True, svgScale = 2,
       batchMode = False, imagesPerPdf = Fin 10, batchResult = None,
       cancelledRef = False \<rparr>"

subsection \<open>Handlers that edit the file list\<close>

text \<open>
  \<open>handleFilesSelected\<close> (lines 104 to 115): the new entries, already given their
  identifiers and preview URLs, are appended.
\<close>

definition handleFilesSelected :: "UploadedFile list \<Rightarrow> state \<Rightarrow> state" where
  "handleFilesSelected uploadedFiles st =
     st\<lparr> files := files st @ uploadedFiles, error := None, result := None \<rparr>"

text \<open>\<open>handleUploadError\<close> (lines 120 to 122).\<close>

definition handleUploadError :: "string \<Rightarrow> state \<Rightarrow> state" where
  "handleUploadError errorMessage st = st\<lparr> error := Some errorMessage \<rparr>"

text \<open>\<open>handleRemoveFile\<close> (lines 127 to 136).\<close>

definition handleRemoveFile :: "string \<Rightarrow> state \<Rightarrow> state" where
  "handleRemoveFile i st =
     st\<lparr> files := filter (\<lambda>f. uid f \<noteq> i) (files st), result := None \<rparr>"

text \<open>\<open>handleClearAll\<close> (lines 141 to 151).\<close>

definition handleClearAll :: "state \<Rightarrow> state" where
  "handleClearAll st =
     st\<lparr> files := [], result := None, batchResult := None, error := None,
         status := Idle, progress := 0 \<rparr>"

subsection \<open>The group-size field\<close>

text \<open>
  The \<open>onChange\<close> of the images-per-PDF input (line 518):
  \<open>Math.max(1, Math.min(files.length, parseInt(e.target.value) || 1))\<close>.
  \<open>clampImagesPerPdf\<close> is the expression on the number \<open>parseInt\<close> returned.
\<close>

definition clampImagesPerPdf :: "nat \<Rightarrow> jsnum \<Rightarrow> jsnum" where
  "clampImagesPerPdf n v = Math_max (Fin 1) (Math_min (Fin (int n)) (js_or v (Fin 1)))"

definition onChangeImagesPerPdf :: "string \<Rightarrow> state \<Rightarrow> state" where
  "onChangeImagesPerPdf v st =
     st\<lparr> imagesPerPdf := clampImagesPerPdf (length (files st)) (parseInt v) \<rparr>"

text \<open>\<open>setBatchMode(e.target.checked)\<close> (line 499).\<close>

definition onChangeBatchMode :: "bool \<Rightarrow> state \<Rightarrow> state" where
  "onChangeBatchMode checked st = st\<lparr> batchMode := checked \<rparr>"

subsection \<open>Conversion\<close>

text \<open>
  \<open>handleConvert\<close> (lines 189 to 271) is an async function with one \<open>await\<close>. The
  code before the \<open>await\<close> is \<open>handleConvert_sync\<close>: it returns the new state and the
  engine call that is awaited, if one was made. The code after the \<open>await\<close>,
  with the \<open>catch\<close> block, is \<open>resume_batch\<close> and \<open>resume_single\<close>.
\<close>

datatype pending =
    PendingBatch "File list" jsnum ImageToPDFOptions
  | PendingSingle "File list" ImageToPDFOptions

definition optionsOf :: "state \<Rightarrow> ImageToPDFOptions" where
  "optionsOf st =
     \<lparr> opt_pageSize = pageSize st, opt_orientation = orientation st,
       opt_margin = margin st, opt_centerImage = centerImage st,
       opt_scaleToFit = scaleToFit st, opt_svgScale = svgScale st \<rparr>"

definition handleConvert_sync :: "state \<Rightarrow> state \<times> pending option" where
  "handleConvert_sync st =
     (if length (files st) < 1
      then (st\<lparr> error := Some ''Please add at least 1 image file.'' \<rparr>, None)
      else
        let st1 = st\<lparr> cancelledRef := False, status := Processing, progress := 0,
                       error := None, result := None, batchResult := None \<rparr>;
            options = optionsOf st
        in if batchMode st \<and> js_gt (Fin (int (length (files st)))) (imagesPerPdf st)
           then (st1, Some (PendingBatch (map ufile (files st)) (imagesPerPdf st) options))
           else (st1, Some (PendingSingle (map ufile (files st)) options)))"

text \<open>
  The progress callback handed to the engine (lines 219 to 224 and 244 to 249);
  \<open>message || ''\<close> is the empty string when no message is given.
\<close>

definition onProgress :: "real \<Rightarrow> string option \<Rightarrow> state \<Rightarrow> state" where
  "onProgress prog message st =
     (if \<not> cancelledRef st
      then st\<lparr> progress := prog,
               progressMessage := (case message of None \<Rightarrow> [] | Some m \<Rightarrow> m) \<rparr>
      else st)"

text \<open>\<open>handleCancel\<close> (lines 276 to 280).\<close>

definition handleCancel :: "state \<Rightarrow> state" where
  "handleCancel st = st\<lparr> cancelledRef := True, status := Idle, progress := 0 \<rparr>"

text \<open>\<open>x || d\<close> on an optional string: the empty string is falsy.\<close>

definition str_or :: "string option \<Rightarrow> string \<Rightarrow> string" where
  "str_or x d = (case x of None \<Rightarrow> d | Some m \<Rightarrow> if m = [] then d else m)"

text \<open>The \<open>catch\<close> block (lines 265 to 270).\<close>

definition on_throw :: "thrown \<Rightarrow> state \<Rightarrow> state" where
  "on_throw err st =
     (if \<not> cancelledRef st
      then st\<lparr> error := Some (case err of ErrorObject m \<Rightarrow> m
                                       | OtherValue \<Rightarrow> ''An unexpected error occurred.''),
               status := Error \<rparr>
      else st)"

text \<open>After the \<open>await\<close> of the batch branch (lines 227 to 238).\<close>

definition resume_batch :: "BatchExportResult settled \<Rightarrow> state \<Rightarrow> state" where
  "resume_batch r st =
     (case r of
        Inl err \<Rightarrow> on_throw err st
      | Inr output \<Rightarrow>
          if cancelledRef st then st\<lparr> status := Idle \<rparr>
          else if out_success output \<and> out_result output \<noteq> None
          then st\<lparr> batchResult := out_result output, status := Complete \<rparr>
          else st\<lparr> error := Some (str_or (out_error_message output)
                                         ''Failed to create batch PDFs.''),
                   status := Error \<rparr>)"

text \<open>After the \<open>await\<close> of the single-document branch (lines 252 to 263).\<close>

definition resume_single :: "Blob settled \<Rightarrow> state \<Rightarrow> state" where
  "resume_single r st =
     (case r of
        Inl err \<Rightarrow> on_throw err st
      | Inr output \<Rightarrow>
          if cancelledRef st then st\<lparr> status := Idle \<rparr>
          else if out_success output \<and> out_result output \<noteq> None
          then st\<lparr> result := out_result output, status := Complete \<rparr>
          else st\<lparr> error := Some (str_or (out_error_message output)
                                         ''Failed to convert images to PDF.''),
                   status := Error \<rparr>)"

text \<open>
  What happens between the call and its settling in a run taken by itself: the
  engine's progress callbacks and the user's clicks on Cancel, in the order they
  come. While the status is \<open>Processing\<close> every other control of the component is
  disabled. After a click on Cancel the status is idle, the other controls are enabled
  again and the cancelled engine call goes on; what can follow then (a new
  \<open>handleConvert\<close>, the late callbacks and the settling of the cancelled call) is not
  an event of this type: the theorems on it compose the handlers directly.
\<close>

datatype inflight = Callback real "string option" | CancelClick

fun inflight_step :: "inflight \<Rightarrow> state \<Rightarrow> state" where
  "inflight_step (Callback prog message) st = onProgress prog message st"
| "inflight_step CancelClick st = handleCancel st"

text \<open>One whole run of \<open>handleConvert\<close>: the call, the events in flight, the settling.\<close>

definition handleConvert :: "engine \<Rightarrow> inflight list \<Rightarrow> state \<Rightarrow> state" where
  "handleConvert eng evs st =
     (case handleConvert_sync st of
        (st1, None) \<Rightarrow> st1
      | (st1, Some (PendingBatch fs g opts)) \<Rightarrow>
          resume_batch (imagesToPDFBatch eng fs g opts) (fold inflight_step evs st1)
      | (st1, Some (PendingSingle fs opts)) \<Rightarrow>
          resume_single (imagesToPDF eng fs opts) (fold inflight_step evs st1))"

subsection \<open>What the component renders\<close>

text \<open>Lines 291 and 292.\<close>

definition isProcessing :: "state \<Rightarrow> bool" where
  "isProcessing st = (status st = Processing \<or> status st = Uploading)"

definition canConvert :: "state \<Rightarrow> bool" where
  "canConvert st = (length (files st) \<ge> 1 \<and> \<not> isProcessing st)"

text \<open>The alert of line 309, \<open>error && ...\<close>: shown for a non-empty message.\<close>

definition alert :: "state \<Rightarrow> string option" where
  "alert st = (case error st of None \<Rightarrow> None | Some m \<Rightarrow> if m = [] then None else Some m)"

text \<open>A non-negative integer in a template literal: its decimal digits.\<close>

definition digitChar :: "nat \<Rightarrow> char" where
  "digitChar d = ''0123456789'' ! d"

fun decimal :: "nat \<Rightarrow> string" where
  "decimal n = (if n < 10 then [digitChar n] else decimal (n div 10) @ [digitChar (n mod 10)])"

text \<open>
  \<open>s.replace(/\.[^/.]+$/, '')\<close> (line 585): the leftmost place where a dot is followed,
  up to the end of the string, by one or more characters that are neither a slash nor
  a dot; the string is cut there. Without such a place it is returned as it is. The
  two characters tested are ASCII, so the match is the same on bytes as on the UTF-16
  units of JavaScript.
\<close>

definition extensionChars :: "string \<Rightarrow> bool" where
  "extensionChars cs = (cs \<noteq> [] \<and> list_all (\<lambda>d. d \<noteq> CHR ''/'' \<and> d \<noteq> CHR ''.'') cs)"

fun removeExtension :: "string \<Rightarrow> string" where
  "removeExtension [] = []"
| "removeExtension (c # cs) =
     (if c = CHR ''.'' \<and> extensionChars cs then [] else c # removeExtension cs)"

text \<open>The file name of the single-document download (line 585).\<close>

definition singleFilename :: "UploadedFile list \<Rightarrow> string" where
  "singleFilename fs =
     (if length fs = 1
      then removeExtension (name (ufile (fs ! 0))) @ ''.pdf''
      else ''images_'' @ decimal (length fs) @ ''_pages.pdf'')"

text \<open>The file name of the batch download (line 595).\<close>

definition batchFilename :: "BatchExportResult \<Rightarrow> string" where
  "batchFilename r = ''images_'' @ decimal (pdfCount r) @ ''_pdfs.zip''"

text \<open>
  The download buttons rendered (lines 582 to 600), each with the blob it offers and
  its file name.
\<close>

definition downloadButtons :: "state \<Rightarrow> (Blob \<times> string) list" where
  "downloadButtons st =
     (case result st of None \<Rightarrow> [] | Some b \<Rightarrow> [(b, singleFilename (files st))]) @
     (case batchResult st of None \<Rightarrow> [] | Some r \<Rightarrow> [(zipBlob r, batchFilename r)])"

text \<open>
  The number of PDF files the hint of line 523 announces,
  \<open>Math.ceil(files.length / imagesPerPdf)\<close>: a finite number divided by an infinity
  is zero, a positive one divided by zero is \<open>Infinity\<close>, and zero by zero is \<open>NaN\<close>.
\<close>

definition batchModeHint :: "nat \<Rightarrow> jsnum \<Rightarrow> jsnum" where
  "batchModeHint n d =
     (case d of
        NaN \<Rightarrow> NaN
      | NegInf \<Rightarrow> Fin 0
      | PosInf \<Rightarrow> Fin 0
      | Fin g \<Rightarrow>
          if g = 0 then (if n = 0 then NaN else PosInf)
          else Fin \<lceil>real n / real_of_int g\<rceil>)"

subsection \<open>The batch orchestrator of the specification\<close>

text \<open>
  Modelled from the spec: \<open>imagesToPDFBatch\<close> lives in
  \<open>@/lib/pdf/processors/image-to-pdf\<close>, which is not among the sources. Section 4.5 of
  the specification gives its algorithm: validate (at least one file, group size at
  least 1); partition the files into consecutive groups of the group size, the last
  one possibly smaller; build one document per group; package the documents into one
  archive and report \<open>imageCount\<close> and \<open>pdfCount\<close>. Any error aborts the run.
  Building one document and packaging the archive are parameters.
\<close>

function partitionGroups :: "nat \<Rightarrow> 'a list \<Rightarrow> 'a list list" where
  "partitionGroups g xs =
     (if g = 0 \<or> xs = [] then [] else take g xs # partitionGroups g (drop g xs))"
  by pat_completeness auto
termination
  by (relation "measure (\<lambda>(g, xs). length xs)") auto

declare partitionGroups.simps [simp del]

datatype ConversionError = ValidationError string | DocumentError string

fun buildAll :: "('a \<Rightarrow> string + 'b) \<Rightarrow> 'a list \<Rightarrow> ConversionError + 'b list" where
  "buildAll build [] = Inr []"
| "buildAll build (x # xs) =
     (case build x of
        Inl msg \<Rightarrow> Inl (DocumentError msg)
      | Inr d \<Rightarrow> (case buildAll build xs of Inl e \<Rightarrow> Inl e | Inr ds \<Rightarrow> Inr (d # ds)))"

definition convertBatch ::
  "(File list \<Rightarrow> string + Blob) \<Rightarrow> (Blob list \<Rightarrow> Blob) \<Rightarrow> File list \<Rightarrow> int \<Rightarrow>
     ConversionError + BatchExportResult" where
  "convertBatch buildDocument packageArchive fs groupSize =
     (if fs = [] then Inl (ValidationError ''no input files'')
      else if groupSize < 1 then Inl (ValidationError ''group size below 1'')
      else
        case buildAll buildDocument (partitionGroups (nat groupSize) fs) of
          Inl e \<Rightarrow> Inl e
        | Inr docs \<Rightarrow>
            Inr \<lparr> zipBlob = packageArchive docs, pdfCount = length docs,
                  imageCount = length fs \<rparr>)"

subsection \<open>Concrete inputs\<close>

text \<open>Uploaded files \<open>scan1.png\<close>, \<open>scan2.png\<close>, ... and an engine that always succeeds.\<close>

definition sampleFile :: "nat \<Rightarrow> UploadedFile" where
  "sampleFile k =
     \<lparr> uid = ''id'' @ decimal k,
       ufile = \<lparr> name = ''scan'' @ decimal k @ ''.png'', mimeType = ''image/png'',
                 byteSize = 1024 \<rparr>,
       preview = ''blob:'' @ decimal k \<rparr>"

definition sampleFiles :: "nat \<Rightarrow> UploadedFile list" where
  "sampleFiles n = map sampleFile [1..<Suc n]"

definition pdfBytes :: Blob where
  "pdfBytes = [37, 80, 68, 70]"

definition succeeded :: "'r \<Rightarrow> 'r settled" where
  "succeeded r = Inr \<lparr> out_success = True, out_result = Some r, out_error_message = None \<rparr>"

definition failed :: "string \<Rightarrow> 'r settled" where
  "failed msg = Inr \<lparr> out_success = False, out_result = None, out_error_message = Some msg \<rparr>"

text \<open>
  The sample engine builds every document as \<open>pdfBytes\<close>; its batch call is the
  orchestrator of the specification, with the archive the concatenation of the
  documents.
\<close>

definition sampleEngine :: engine where
  "sampleEngine =
     \<lparr> imagesToPDF = (\<lambda>fs opts. succeeded pdfBytes),
       imagesToPDFBatch = (\<lambda>fs g opts.
         case g of
           Fin k \<Rightarrow>
             (case convertBatch (\<lambda>grp. Inr pdfBytes) concat fs k of
                Inl e \<Rightarrow> failed ''conversion failed''
              | Inr r \<Rightarrow> succeeded r)
         | _ \<Rightarrow> failed ''group size is not a number'') \<rparr>"

text \<open>The option values of a component that has just been created.\<close>

definition defaultOptions :: ImageToPDFOptions where
  "defaultOptions =
     \<lparr> opt_pageSize = A4, opt_orientation = Auto, opt_margin = 36,
       opt_centerImage = True, opt_scaleToFit = True, opt_svgScale = 2 \<rparr>"

text \<open>
  States used as examples: a file list with batch mode switched on and the group size
  left at its initial value 10, and a run that was started and then cancelled.
\<close>

definition batchOf :: "nat \<Rightarrow> state" where
  "batchOf n = initial_state\<lparr> files := sampleFiles n, batchMode := True \<rparr>"

definition twoFiles :: state where
  "twoFiles = initial_state\<lparr> files := sampleFiles 2 \<rparr>"

definition cancelledRun :: state where
  "cancelledRun = handleCancel (fst (handleConvert_sync twoFiles))"

text \<open>Convert is clicked again while the engine call of the cancelled run is still running.\<close>

definition restartedRun :: state where
  "restartedRun = fst (handleConvert_sync cancelledRun)"

text \<open>A finished single-document run on one file, and a finished batch run on 25.\<close>

definition oneFileDone :: state where
  "oneFileDone = handleConvert sampleEngine [] (initial_state\<lparr> files := sampleFiles 1 \<rparr>)"

definition batchDone :: state where
  "batchDone = handleConvert sampleEngine [] (batchOf 25)"

text \<open>
  The group size is an integer of at least 1. \<open>setImagesPerPdf\<close> is called in one
  place only, the \<open>onChange\<close> of line 518, so a state has this property when the
  initial state and the result of every \<open>onChange\<close> have it.
\<close>

definition groupSizeOk :: "state \<Rightarrow> bool" where
  "groupSizeOk st = (case imagesPerPdf st of Fin g \<Rightarrow> 1 \<le> g | _ \<Rightarrow> False)"

section \<open>Properties\<close>

subsection \<open>Events in flight\<close>

text \<open>
  Progress callbacks and cancelling never touch the result, the batch result, the
  error or the file list; after a cancel, further callbacks and cancels change nothing.
\<close>

lemma inflight_step_frame:
  "result (inflight_step e st) = result st \<and> batchResult (inflight_step e st) = batchResult st \<and>
   error (inflight_step e st) = error st \<and> files (inflight_step e st) = files st"
  by (cases e) (simp_all add: onProgress_def handleCancel_def)

lemma fold_inflight_frame:
  "result (fold inflight_step evs st) = result st \<and>
   batchResult (fold inflight_step evs st) = batchResult st \<and>
   error (fold inflight_step evs st) = error st \<and>
   files (fold inflight_step evs st) = files st"
  by (induction evs arbitrary: st) (simp_all add: inflight_step_frame)

lemma fold_no_cancel:
  "CancelClick \<notin> set evs \<Longrightarrow>
   cancelledRef (fold inflight_step evs st) = cancelledRef st \<and>
   status (fold inflight_step evs st) = status st"
proof (induction evs arbitrary: st)
  case Nil
  then show ?case by simp
next
  case (Cons e evs)
  then obtain p m where e: "e = Callback p m" by (cases e) auto
  have "cancelledRef (onProgress p m st) = cancelledRef st \<and> status (onProgress p m st) = status st"
    by (simp add: onProgress_def)
  with Cons e show ?case by simp
qed

lemma onProgress_cancelled: "cancelledRef st \<Longrightarrow> onProgress p m st = st"
  by (simp add: onProgress_def)

lemma handleCancel_idem: "handleCancel (handleCancel st) = handleCancel st"
  by (simp add: handleCancel_def)

lemma fold_after_cancel: "fold inflight_step evs (handleCancel st) = handleCancel st"
proof (induction evs)
  case Nil
  show ?case by simp
next
  case (Cons e evs)
  have "inflight_step e (handleCancel st) = handleCancel st"
    by (cases e) (simp_all add: onProgress_def handleCancel_def)
  with Cons show ?case by simp
qed

lemma fold_with_cancel:
  assumes "CancelClick \<in> set evs"
  shows "\<exists>st2. fold inflight_step evs st = handleCancel st2 \<and> result st2 = result st \<and>
           batchResult st2 = batchResult st \<and> error st2 = error st \<and> files st2 = files st"
proof -
  from assms obtain pre post where evs: "evs = pre @ CancelClick # post"
    by (auto dest: split_list)
  let ?st2 = "fold inflight_step pre st"
  have "fold inflight_step evs st = handleCancel ?st2"
    by (simp add: evs fold_after_cancel)
  then show ?thesis using fold_inflight_frame[of pre st] by blast
qed

lemma resume_single_cancelled:
  "resume_single r (handleCancel st) = handleCancel st"
  by (cases r) (simp_all add: resume_single_def on_throw_def handleCancel_def)

lemma resume_batch_cancelled:
  "resume_batch r (handleCancel st) = handleCancel st"
  by (cases r) (simp_all add: resume_batch_def on_throw_def handleCancel_def)

lemma sync_cases:
  assumes "1 \<le> length (files st)"
  shows "\<exists>st1. fst (handleConvert_sync st) = st1 \<and> result st1 = None \<and> batchResult st1 = None \<and>
     error st1 = None \<and> \<not> cancelledRef st1 \<and> status st1 = Processing \<and> files st1 = files st \<and>
     (snd (handleConvert_sync st) = Some (PendingBatch (map ufile (files st)) (imagesPerPdf st) (optionsOf st)) \<or>
      snd (handleConvert_sync st) = Some (PendingSingle (map ufile (files st)) (optionsOf st)))"
  using assms by (auto simp add: handleConvert_sync_def Let_def)

lemma cancelled_run_isolated:
  assumes "1 \<le> length (files st)" and "CancelClick \<in> set evs"
  shows "status (handleConvert eng evs st) = Idle \<and> result (handleConvert eng evs st) = None \<and>
         batchResult (handleConvert eng evs st) = None \<and> error (handleConvert eng evs st) = None \<and>
         progress (handleConvert eng evs st) = 0"
proof -
  obtain st1 where s: "fst (handleConvert_sync st) = st1" "result st1 = None" "batchResult st1 = None"
    "error st1 = None"
    and p: "snd (handleConvert_sync st) = Some (PendingBatch (map ufile (files st)) (imagesPerPdf st) (optionsOf st)) \<or>
      snd (handleConvert_sync st) = Some (PendingSingle (map ufile (files st)) (optionsOf st))"
    using sync_cases[OF assms(1)] by blast
  obtain st2 where f: "fold inflight_step evs st1 = handleCancel st2" "result st2 = None"
    "batchResult st2 = None" "error st2 = None"
    using fold_with_cancel[OF assms(2), of st1] s by auto
  have h: "status (handleCancel st2) = Idle \<and> result (handleCancel st2) = None \<and>
         batchResult (handleCancel st2) = None \<and> error (handleCancel st2) = None \<and>
         progress (handleCancel st2) = 0"
    using f by (simp add: handleCancel_def)
  from p show ?thesis
  proof
    assume "snd (handleConvert_sync st) = Some (PendingBatch (map ufile (files st)) (imagesPerPdf st) (optionsOf st))"
    with s(1) have "handleConvert_sync st = (st1, Some (PendingBatch (map ufile (files st)) (imagesPerPdf st) (optionsOf st)))"
      by (metis prod.collapse)
    then have "handleConvert eng evs st = handleCancel st2"
      by (simp add: handleConvert_def f resume_batch_cancelled)
    with h show ?thesis by simp
  next
    assume "snd (handleConvert_sync st) = Some (PendingSingle (map ufile (files st)) (optionsOf st))"
    with s(1) have "handleConvert_sync st = (st1, Some (PendingSingle (map ufile (files st)) (optionsOf st)))"
      by (metis prod.collapse)
    then have "handleConvert eng evs st = handleCancel st2"
      by (simp add: handleConvert_def f resume_single_cancelled)
    with h show ?thesis by simp
  qed
qed

subsection \<open>Default options\<close>

text \<open>
  Claim C7. A component that has just been created has page size A4, orientation
  auto, margin 36 points, centring on, scale-to-fit on, SVG scale 2, and a group size
  that is an integer of at least 1 (it is 10). These are the options handed to the
  engine by a conversion started right after files were added.
\<close>

theorem default_option_values:
  "pageSize initial_state = A4 \<and> orientation initial_state = Auto \<and>
   margin initial_state = 36 \<and> centerImage initial_state = True \<and>
   scaleToFit initial_state = True \<and> svgScale initial_state = 2 \<and>
   (\<exists>g. imagesPerPdf initial_state = Fin g \<and> 1 \<le> g) \<and>
   optionsOf initial_state = defaultOptions \<and>
   (fs \<noteq> [] \<longrightarrow>
      snd (handleConvert_sync (handleFilesSelected fs initial_state)) =
        Some (PendingSingle (map ufile fs) defaultOptions))"
  by (simp add: initial_state_def optionsOf_def defaultOptions_def handleConvert_sync_def
      handleFilesSelected_def Let_def)

theorem default_option_values_witness:
  "sampleFiles 2 \<noteq> [] \<and>
   snd (handleConvert_sync (handleFilesSelected (sampleFiles 2) initial_state)) =
     Some (PendingSingle (map ufile (sampleFiles 2)) defaultOptions)"
proof -
  have h: "sampleFiles 2 \<noteq> []" by (simp add: sampleFiles_def)
  with default_option_values[of "sampleFiles 2"] show ?thesis by blast
qed

subsection \<open>Validation of the file list\<close>

text \<open>
  Claim C6. With an empty file list, \<open>handleConvert\<close> stores the message
  "Please add at least 1 image file." (which the alert shows) and stops: no engine
  call is awaited, and status, progress, result and batch result stay as they were,
  whatever the engine would have returned.
\<close>

theorem empty_input_rejected:
  assumes "files st = []"
  shows "handleConvert_sync st = (st\<lparr> error := Some ''Please add at least 1 image file.'' \<rparr>, None) \<and>
         handleConvert eng evs st = st\<lparr> error := Some ''Please add at least 1 image file.'' \<rparr> \<and>
         alert (handleConvert eng evs st) = Some ''Please add at least 1 image file.'' \<and>
         status (handleConvert eng evs st) = status st \<and>
         progress (handleConvert eng evs st) = progress st \<and>
         progressMessage (handleConvert eng evs st) = progressMessage st \<and>
         result (handleConvert eng evs st) = result st \<and>
         batchResult (handleConvert eng evs st) = batchResult st"
  using assms by (simp add: handleConvert_def handleConvert_sync_def alert_def)

theorem empty_input_rejected_witness:
  "files initial_state = [] \<and>
   handleConvert_sync initial_state =
     (initial_state\<lparr> error := Some ''Please add at least 1 image file.'' \<rparr>, None) \<and>
   status (handleConvert sampleEngine [Callback 1 None] initial_state) = Idle \<and>
   result (handleConvert sampleEngine [Callback 1 None] initial_state) = None \<and>
   batchResult (handleConvert sampleEngine [Callback 1 None] initial_state) = None"
proof -
  have h: "files initial_state = []" by (simp add: initial_state_def)
  from empty_input_rejected[OF h, of sampleEngine "[Callback 1 None]"] h show ?thesis
    by (simp add: initial_state_def)
qed

subsection \<open>Progress after a cancel\<close>

text \<open>
  While the cancellation flag is set, a progress callback changes nothing.
  \<open>handleCancel\<close> sets the flag and puts the progress value to 0; whatever callbacks
  (and further cancels) follow, the state stays the one \<open>handleCancel\<close> left: the
  progress is 0 and the message is the one shown before the cancel. The flag is
  cleared by the next \<open>handleConvert\<close>; what a late callback does after that is
  shown under Cancelling below.
\<close>

lemma progress_dropped_while_flag_set:
  "(cancelledRef st \<longrightarrow> onProgress prog message st = st) \<and>
   cancelledRef (handleCancel st) \<and> progress (handleCancel st) = 0 \<and>
   fold inflight_step evs (handleCancel st) = handleCancel st \<and>
   progress (fold inflight_step evs (handleCancel st)) = 0 \<and>
   progressMessage (fold inflight_step evs (handleCancel st)) = progressMessage st"
  by (simp add: fold_after_cancel onProgress_cancelled) (simp add: handleCancel_def)

lemma progress_dropped_while_flag_set_example:
  "cancelledRef cancelledRun \<and>
   onProgress (1 / 2) (Some ''Processing image 1 of 2'') cancelledRun = cancelledRun \<and>
   progress cancelledRun = 0"
proof -
  have h: "cancelledRef cancelledRun" by (simp add: cancelledRun_def handleCancel_def)
  have p: "progress cancelledRun = 0" by (simp add: cancelledRun_def handleCancel_def)
  from progress_dropped_while_flag_set[of cancelledRun "1 / 2" "Some ''Processing image 1 of 2''"] h p
  show ?thesis by blast
qed

subsection \<open>One run, seen whole\<close>

lemma sync_started:
  assumes "1 \<le> length (files st)"
  shows "fst (handleConvert_sync st) =
           st\<lparr> cancelledRef := False, status := Processing, progress := 0,
               error := None, result := None, batchResult := None \<rparr>"
    and "snd (handleConvert_sync st) =
           Some (if batchMode st \<and> js_gt (Fin (int (length (files st)))) (imagesPerPdf st)
                 then PendingBatch (map ufile (files st)) (imagesPerPdf st) (optionsOf st)
                 else PendingSingle (map ufile (files st)) (optionsOf st))"
  using assms by (auto simp add: handleConvert_sync_def Let_def)

lemma inflight_clean:
  assumes "1 \<le> length (files st)" and "CancelClick \<notin> set evs"
  shows "\<exists>st2. fold inflight_step evs (fst (handleConvert_sync st)) = st2 \<and>
           \<not> cancelledRef st2 \<and> result st2 = None \<and> batchResult st2 = None \<and>
           error st2 = None \<and> files st2 = files st"
  using fold_no_cancel[OF assms(2), of "fst (handleConvert_sync st)"]
        fold_inflight_frame[of evs "fst (handleConvert_sync st)"]
  by (simp add: sync_started(1)[OF assms(1)])

lemma handleConvert_unfold:
  assumes "1 \<le> length (files st)"
  shows "handleConvert eng evs st =
     (if batchMode st \<and> js_gt (Fin (int (length (files st)))) (imagesPerPdf st)
      then resume_batch (imagesToPDFBatch eng (map ufile (files st)) (imagesPerPdf st) (optionsOf st))
             (fold inflight_step evs (fst (handleConvert_sync st)))
      else resume_single (imagesToPDF eng (map ufile (files st)) (optionsOf st))
             (fold inflight_step evs (fst (handleConvert_sync st))))"
  using assms by (auto simp add: handleConvert_def handleConvert_sync_def Let_def)

lemma resume_single_outcome:
  assumes "\<not> cancelledRef st2" "result st2 = None" "batchResult st2 = None" "error st2 = None"
  shows "(status (resume_single r st2) = Complete \<and> error (resume_single r st2) = None \<and>
          result (resume_single r st2) \<noteq> None \<and> batchResult (resume_single r st2) = None) \<or>
         (status (resume_single r st2) = Error \<and> error (resume_single r st2) \<noteq> None \<and>
          result (resume_single r st2) = None \<and> batchResult (resume_single r st2) = None)"
  using assms by (cases r) (auto simp add: resume_single_def on_throw_def)

lemma resume_batch_outcome:
  assumes "\<not> cancelledRef st2" "result st2 = None" "batchResult st2 = None" "error st2 = None"
  shows "(status (resume_batch r st2) = Complete \<and> error (resume_batch r st2) = None \<and>
          result (resume_batch r st2) = None \<and> batchResult (resume_batch r st2) \<noteq> None) \<or>
         (status (resume_batch r st2) = Error \<and> error (resume_batch r st2) \<noteq> None \<and>
          result (resume_batch r st2) = None \<and> batchResult (resume_batch r st2) = None)"
  using assms by (cases r) (auto simp add: resume_batch_def on_throw_def)

subsection \<open>Success or failure\<close>

text \<open>
  A run taken by itself, that passes validation and is never cancelled, ends either
  complete, with exactly one of the PDF blob and the batch result stored and no
  error, or in error, with an error stored (possibly the empty string) and neither
  blob. The state the run starts from and what the engine does are arbitrary; the
  events in flight are the run's own progress callbacks. What happens when an
  earlier, cancelled call settles during the run is shown under Cancelling below.
\<close>

lemma outcome_exclusive_isolated:
  assumes "1 \<le> length (files st)" and "CancelClick \<notin> set evs"
  shows "(status (handleConvert eng evs st) = Complete \<and> error (handleConvert eng evs st) = None \<and>
          (result (handleConvert eng evs st) = None) \<noteq> (batchResult (handleConvert eng evs st) = None)) \<or>
         (status (handleConvert eng evs st) = Error \<and> error (handleConvert eng evs st) \<noteq> None \<and>
          result (handleConvert eng evs st) = None \<and> batchResult (handleConvert eng evs st) = None)"
proof -
  obtain st2 where st2: "fold inflight_step evs (fst (handleConvert_sync st)) = st2"
     "\<not> cancelledRef st2" "result st2 = None" "batchResult st2 = None" "error st2 = None"
    using inflight_clean[OF assms] by blast
  show ?thesis
  proof (cases "batchMode st \<and> js_gt (Fin (int (length (files st)))) (imagesPerPdf st)")
    case True
    then have "handleConvert eng evs st =
      resume_batch (imagesToPDFBatch eng (map ufile (files st)) (imagesPerPdf st) (optionsOf st)) st2"
      using handleConvert_unfold[OF assms(1)] st2(1) by simp
    then show ?thesis
      using resume_batch_outcome[OF st2(2-5),
          of "imagesToPDFBatch eng (map ufile (files st)) (imagesPerPdf st) (optionsOf st)"]
      by auto
  next
    case False
    then have "handleConvert eng evs st =
      resume_single (imagesToPDF eng (map ufile (files st)) (optionsOf st)) st2"
      using handleConvert_unfold[OF assms(1)] st2(1) by auto
    then show ?thesis
      using resume_single_outcome[OF st2(2-5),
          of "imagesToPDF eng (map ufile (files st)) (optionsOf st)"]
      by auto
  qed
qed

lemma outcome_exclusive_isolated_example:
  "1 \<le> length (files twoFiles) \<and>
   CancelClick \<notin> set [Callback (1 / 2) None, Callback 1 (Some ''done'')] \<and>
   status (handleConvert sampleEngine [Callback (1 / 2) None, Callback 1 (Some ''done'')] twoFiles)
     = Complete \<and>
   error (handleConvert sampleEngine [Callback (1 / 2) None, Callback 1 (Some ''done'')] twoFiles)
     = None \<and>
   result (handleConvert sampleEngine [Callback (1 / 2) None, Callback 1 (Some ''done'')] twoFiles)
     = Some pdfBytes \<and>
   batchResult (handleConvert sampleEngine [Callback (1 / 2) None, Callback 1 (Some ''done'')] twoFiles)
     = None"
proof -
  have h1: "1 \<le> length (files twoFiles)"
    by (simp add: twoFiles_def sampleFiles_def)
  have h2: "CancelClick \<notin> set [Callback (1 / 2) None, Callback 1 (Some ''done'')]"
    by simp
  have r: "result (handleConvert sampleEngine [Callback (1 / 2) None, Callback 1 (Some ''done'')] twoFiles)
     = Some pdfBytes"
    by (simp add: handleConvert_def handleConvert_sync_def twoFiles_def initial_state_def
        sampleFiles_def sampleEngine_def succeeded_def resume_single_def onProgress_def
        js_gt_def Let_def)
  from outcome_exclusive_isolated[OF h1 h2, of sampleEngine] r h1 h2 show ?thesis
    by auto
qed

lemma resume_single_batchResult: "batchResult (resume_single r st) = batchResult st"
  by (cases r) (simp_all add: resume_single_def on_throw_def)

lemma batch_run_success:
  assumes "1 \<le> length (files st)" and "batchMode st"
    and "js_gt (Fin (int (length (files st)))) (imagesPerPdf st)"
    and "CancelClick \<notin> set evs"
    and "imagesToPDFBatch eng (map ufile (files st)) (imagesPerPdf st) (optionsOf st) = Inr out"
    and "out_success out" and "out_result out = Some r"
  shows "status (handleConvert eng evs st) = Complete \<and>
         batchResult (handleConvert eng evs st) = Some r \<and>
         result (handleConvert eng evs st) = None \<and>
         error (handleConvert eng evs st) = None"
proof -
  obtain st2 where st2: "fold inflight_step evs (fst (handleConvert_sync st)) = st2"
     "\<not> cancelledRef st2" "result st2 = None" "batchResult st2 = None" "error st2 = None"
    using inflight_clean[OF assms(1) assms(4)] by blast
  have e: "handleConvert eng evs st = resume_batch (Inr out) st2"
    using handleConvert_unfold[OF assms(1), of eng evs] assms(2,3,5) st2(1) by simp
  show ?thesis using st2 assms(6,7) by (simp add: e resume_batch_def)
qed

subsection \<open>When the batch path is taken\<close>

text \<open>
  Claim C1, as amended. With batch mode on and at least one file, the batch path is
  taken exactly when there are more files than the group size: the engine's batch
  call is awaited and, when it succeeds and the run is not cancelled, its
  \<open>BatchExportResult\<close> (archive, image count, PDF count) is stored. With as many
  files as the group size, or fewer, the single-document call is awaited instead and
  no batch result is stored.
\<close>

theorem batch_path_condition:
  assumes "1 \<le> length (files st)" and "batchMode st" and "imagesPerPdf st = Fin g"
  shows "(g < int (length (files st)) \<longrightarrow>
            snd (handleConvert_sync st) =
              Some (PendingBatch (map ufile (files st)) (Fin g) (optionsOf st)) \<and>
            (CancelClick \<notin> set evs \<longrightarrow>
             imagesToPDFBatch eng (map ufile (files st)) (Fin g) (optionsOf st) = Inr out \<longrightarrow>
             out_success out \<longrightarrow> out_result out = Some r \<longrightarrow>
               status (handleConvert eng evs st) = Complete \<and>
               batchResult (handleConvert eng evs st) = Some r \<and>
               result (handleConvert eng evs st) = None \<and>
               error (handleConvert eng evs st) = None)) \<and>
         (int (length (files st)) \<le> g \<longrightarrow>
            snd (handleConvert_sync st) =
              Some (PendingSingle (map ufile (files st)) (optionsOf st)) \<and>
            batchResult (handleConvert eng evs st) = None)"
proof (intro conjI impI)
  assume lt: "g < int (length (files st))"
  then have gate: "js_gt (Fin (int (length (files st)))) (imagesPerPdf st)"
    using assms by (simp add: js_gt_def)
  show "snd (handleConvert_sync st) =
              Some (PendingBatch (map ufile (files st)) (Fin g) (optionsOf st))"
    using sync_started(2)[OF assms(1)] gate assms(2,3) by simp
  assume nc: "CancelClick \<notin> set evs"
    and out: "imagesToPDFBatch eng (map ufile (files st)) (Fin g) (optionsOf st) = Inr out"
       "out_success out" "out_result out = Some r"
  have out': "imagesToPDFBatch eng (map ufile (files st)) (imagesPerPdf st) (optionsOf st) = Inr out"
    using out(1) assms(3) by simp
  note s = batch_run_success[OF assms(1,2) gate nc out' out(2,3)]
  from s show "status (handleConvert eng evs st) = Complete" by blast
  from s show "batchResult (handleConvert eng evs st) = Some r" by blast
  from s show "result (handleConvert eng evs st) = None" by blast
  from s show "error (handleConvert eng evs st) = None" by blast
next
  assume le: "int (length (files st)) \<le> g"
  then have gate: "\<not> (batchMode st \<and> js_gt (Fin (int (length (files st)))) (imagesPerPdf st))"
    using assms by (simp add: js_gt_def)
  show "snd (handleConvert_sync st) =
              Some (PendingSingle (map ufile (files st)) (optionsOf st))"
    using sync_started(2)[OF assms(1)] gate by simp
  have "handleConvert eng evs st =
      resume_single (imagesToPDF eng (map ufile (files st)) (optionsOf st))
        (fold inflight_step evs (fst (handleConvert_sync st)))"
    using handleConvert_unfold[OF assms(1), of eng evs] gate by simp
  then show "batchResult (handleConvert eng evs st) = None"
    using fold_inflight_frame[of evs "fst (handleConvert_sync st)"]
    by (simp add: resume_single_batchResult sync_started(1)[OF assms(1)])
qed

theorem batch_path_condition_witness:
  "1 \<le> length (files (batchOf 25)) \<and> batchMode (batchOf 25) \<and>
   imagesPerPdf (batchOf 25) = Fin 10 \<and> (10::int) < int (length (files (batchOf 25))) \<and>
   snd (handleConvert_sync (batchOf 25)) =
     Some (PendingBatch (map ufile (files (batchOf 25))) (Fin 10) (optionsOf (batchOf 25)))"
proof -
  have h1: "1 \<le> length (files (batchOf 25))" by (simp add: batchOf_def sampleFiles_def)
  have h2: "batchMode (batchOf 25)" by (simp add: batchOf_def)
  have h3: "imagesPerPdf (batchOf 25) = Fin 10" by (simp add: batchOf_def initial_state_def)
  have h4: "(10::int) < int (length (files (batchOf 25)))" by (simp add: batchOf_def sampleFiles_def)
  from batch_path_condition[OF h1 h2 h3] h1 h2 h3 h4 show ?thesis by blast
qed

text \<open>
  The claim as first stated fails with ten files and group size ten: batch mode is
  on, the input is valid, and the run awaits the single-document call, stores a PDF
  blob and no batch result.
\<close>

theorem batch_path_counterexample:
  "batchMode (batchOf 10) \<and> length (files (batchOf 10)) = 10 \<and>
   imagesPerPdf (batchOf 10) = Fin 10 \<and>
   snd (handleConvert_sync (batchOf 10)) =
     Some (PendingSingle (map ufile (sampleFiles 10)) defaultOptions) \<and>
   status (handleConvert sampleEngine [] (batchOf 10)) = Complete \<and>
   result (handleConvert sampleEngine [] (batchOf 10)) = Some pdfBytes \<and>
   batchResult (handleConvert sampleEngine [] (batchOf 10)) = None"
  by (simp add: handleConvert_def handleConvert_sync_def batchOf_def initial_state_def
        sampleFiles_def sampleEngine_def succeeded_def resume_single_def
        js_gt_def Let_def optionsOf_def defaultOptions_def)

subsection \<open>Cancelling\<close>

text \<open>
  Claim C3. In a run whose events in flight are its own progress callbacks and clicks
  on Cancel, a cancel leaves the status idle and no blob, batch result or error
  (lemma \<open>cancelled_run_isolated\<close>). The flag is one ref shared by all runs, though, and
  \<open>handleConvert\<close> clears it. After a cancel the status is idle, so the Convert button
  is enabled again while the cancelled engine call is still running. Below: two
  files, Convert, Cancel, Convert again; then the first call resolves. Its blob is
  stored, the status is complete and the download button is rendered.
\<close>

theorem cancelled_run_result_after_restart:
  "snd (handleConvert_sync twoFiles) =
     Some (PendingSingle (map ufile (sampleFiles 2)) defaultOptions) \<and>
   cancelledRef cancelledRun \<and> status cancelledRun = Idle \<and> canConvert cancelledRun \<and>
   snd (handleConvert_sync cancelledRun) =
     Some (PendingSingle (map ufile (sampleFiles 2)) defaultOptions) \<and>
   cancelledRef (fst (handleConvert_sync cancelledRun)) = False \<and>
   status (resume_single (succeeded pdfBytes) (fst (handleConvert_sync cancelledRun))) = Complete \<and>
   result (resume_single (succeeded pdfBytes) (fst (handleConvert_sync cancelledRun))) = Some pdfBytes \<and>
   downloadButtons (resume_single (succeeded pdfBytes) (fst (handleConvert_sync cancelledRun))) =
     [(pdfBytes, ''images_2_pages.pdf'')]"
  by (simp add: handleConvert_sync_def cancelledRun_def twoFiles_def initial_state_def
        handleCancel_def canConvert_def isProcessing_def
        sampleFiles_def succeeded_def resume_single_def downloadButtons_def singleFilename_def
        js_gt_def Let_def optionsOf_def defaultOptions_def digitChar_def)

text \<open>
  Claim C8. A run that completes without being cancelled should leave exactly one of
  the two sides: a stored blob and no error, or an error message and no blob. The
  code leaves both after the same restart: the first run is cancelled, Convert is
  clicked again, the cancelled call resolves with a PDF, which is stored since the
  second \<open>handleConvert\<close> cleared the flag, and then the second run, which nobody
  cancelled, fails: its error is stored beside the first run's blob. And it can leave
  neither to see: when the engine throws an \<open>Error\<close> whose message is empty, the
  \<open>catch\<close> block of line 267 stores the empty string, with no fallback text as lines
  236 and 261 have, and the alert of line 309 is not rendered.
\<close>

theorem uncancelled_run_both_sides_after_restart:
  "canConvert cancelledRun \<and> cancelledRef restartedRun = False \<and>
   status restartedRun = Processing \<and>
   status (resume_single (failed ''Unsupported image'')
             (resume_single (succeeded pdfBytes) restartedRun)) = Error \<and>
   result (resume_single (failed ''Unsupported image'')
             (resume_single (succeeded pdfBytes) restartedRun)) = Some pdfBytes \<and>
   error (resume_single (failed ''Unsupported image'')
             (resume_single (succeeded pdfBytes) restartedRun)) = Some ''Unsupported image'' \<and>
   status (handleConvert
             (sampleEngine\<lparr> imagesToPDF := (\<lambda>fs opts. Inl (ErrorObject [])) \<rparr>) [] twoFiles) = Error \<and>
   result (handleConvert
             (sampleEngine\<lparr> imagesToPDF := (\<lambda>fs opts. Inl (ErrorObject [])) \<rparr>) [] twoFiles) = None \<and>
   error (handleConvert
             (sampleEngine\<lparr> imagesToPDF := (\<lambda>fs opts. Inl (ErrorObject [])) \<rparr>) [] twoFiles) = Some [] \<and>
   alert (handleConvert
             (sampleEngine\<lparr> imagesToPDF := (\<lambda>fs opts. Inl (ErrorObject [])) \<rparr>) [] twoFiles) = None"
  by (simp add: handleConvert_def handleConvert_sync_def restartedRun_def cancelledRun_def
        twoFiles_def initial_state_def handleCancel_def canConvert_def isProcessing_def
        sampleFiles_def sampleEngine_def succeeded_def failed_def resume_single_def
        on_throw_def str_or_def alert_def js_gt_def Let_def)

text \<open>
  Claim C10. Once cancellation has been requested, no later progress callback of the
  cancelled run should change the progress shown. The code drops such a callback
  only while the flag is still set. After the same restart (Convert, Cancel, Convert
  again) the flag is clear, and a callback of the cancelled call, arriving then,
  overwrites the progress value and the message that the second run shows.
\<close>

theorem late_callback_shown_after_restart:
  "cancelledRef cancelledRun \<and> progress cancelledRun = 0 \<and> canConvert cancelledRun \<and>
   cancelledRef restartedRun = False \<and> progress restartedRun = 0 \<and>
   progress (onProgress (3 / 4) (Some ''Processing image 2 of 2'') restartedRun) = 3 / 4 \<and>
   progressMessage (onProgress (3 / 4) (Some ''Processing image 2 of 2'') restartedRun) =
     ''Processing image 2 of 2''"
  by (simp add: handleConvert_sync_def restartedRun_def cancelledRun_def
        twoFiles_def initial_state_def handleCancel_def canConvert_def isProcessing_def
        sampleFiles_def onProgress_def js_gt_def Let_def)

subsection \<open>File names of the downloads\<close>

lemma extensionChars_dot: "\<not> extensionChars (xs @ CHR ''.'' # ys)"
  by (simp add: extensionChars_def)

lemma removeExtension_ext:
  "extensionChars ext \<Longrightarrow> removeExtension (base @ CHR ''.'' # ext) = base"
  by (induction base) (simp_all add: extensionChars_dot)

lemma removeExtension_none:
  "\<not> (\<exists>base ext. s = base @ CHR ''.'' # ext \<and> extensionChars ext) \<Longrightarrow> removeExtension s = s"
proof (induction s)
  case Nil
  show ?case by simp
next
  case (Cons c cs)
  have a: "\<not> (c = CHR ''.'' \<and> extensionChars cs)"
  proof
    assume "c = CHR ''.'' \<and> extensionChars cs"
    then have "c # cs = [] @ CHR ''.'' # cs \<and> extensionChars cs" by simp
    with Cons.prems show False by blast
  qed
  have b: "\<not> (\<exists>base ext. cs = base @ CHR ''.'' # ext \<and> extensionChars ext)"
  proof
    assume "\<exists>base ext. cs = base @ CHR ''.'' # ext \<and> extensionChars ext"
    then obtain base ext where "cs = base @ CHR ''.'' # ext" "extensionChars ext" by blast
    then have "c # cs = (c # base) @ CHR ''.'' # ext \<and> extensionChars ext" by simp
    with Cons.prems show False by blast
  qed
  from a Cons.IH[OF b] show ?case by auto
qed

text \<open>The digits of \<open>decimal n\<close> read back as \<open>n\<close>.\<close>

lemma digitValue_digitChar: "d < 10 \<Longrightarrow> digitValue (digitChar d) = Some d"
proof -
  assume "d < 10"
  then have "d \<in> {0, 1, 2, 3, 4, 5, 6, 7, 8, 9}" by auto
  then show ?thesis by (auto simp add: digitValue_def digitChar_def)
qed

lemma parseDigits_append:
  "parseDigits 10 (decimal n @ rest) acc =
     parseDigits 10 rest (Some (10 ^ length (decimal n) * (case acc of None \<Rightarrow> 0 | Some a \<Rightarrow> a) + n))"
proof (induction n arbitrary: rest acc rule: decimal.induct)
  case (1 n)
  show ?case
  proof (cases "n < 10")
    case True
    then show ?thesis by (simp add: digitValue_digitChar)
  next
    case False
    have d: "decimal n = decimal (n div 10) @ [digitChar (n mod 10)]"
      using False by simp
    have m: "n mod 10 < 10" by simp
    have "parseDigits 10 (decimal n @ rest) acc =
          parseDigits 10 (decimal (n div 10) @ (digitChar (n mod 10) # rest)) acc"
      by (simp only: d append_assoc append_Cons append_Nil)
    also have "\<dots> = parseDigits 10 (digitChar (n mod 10) # rest)
        (Some (10 ^ length (decimal (n div 10)) * (case acc of None \<Rightarrow> 0 | Some a \<Rightarrow> a) + n div 10))"
      using 1[OF False] by blast
    also have "\<dots> = parseDigits 10 rest
        (Some (10 * (10 ^ length (decimal (n div 10)) * (case acc of None \<Rightarrow> 0 | Some a \<Rightarrow> a) + n div 10)
               + n mod 10))"
      by (simp add: digitValue_digitChar[OF m] del: decimal.simps)
    also have "10 * (10 ^ length (decimal (n div 10)) * (case acc of None \<Rightarrow> 0 | Some a \<Rightarrow> a) + n div 10)
               + n mod 10 = 10 ^ length (decimal n) * (case acc of None \<Rightarrow> 0 | Some a \<Rightarrow> a) + n"
    proof -
      have "length (decimal n) = Suc (length (decimal (n div 10)))"
        by (subst d) simp
      then show ?thesis by (simp add: algebra_simps del: decimal.simps)
    qed
    finally show ?thesis .
  qed
qed

lemma parseDigits_decimal: "parseDigits 10 (decimal n) None = Some n"
  using parseDigits_append[of n "[]" None] by (simp del: decimal.simps)

lemma decimal_nonempty: "decimal n \<noteq> []"
  by (subst decimal.simps) simp

lemma decimal_hd: "\<exists>k<10. hd (decimal n) = digitChar k"
proof (induction n rule: decimal.induct)
  case (1 n)
  show ?case
  proof (cases "n < 10")
    case True
    then show ?thesis by auto
  next
    case False
    have "hd (decimal n) = hd (decimal (n div 10) @ [digitChar (n mod 10)])"
      using False by (subst decimal.simps) simp
    also have "\<dots> = hd (decimal (n div 10))"
      using decimal_nonempty[of "n div 10"] by (rule hd_append2)
    finally show ?thesis using 1[OF False] by (simp only:)
  qed
qed

lemma digitChar_plain:
  assumes "k < 10"
  shows "\<not> isWhiteSpace (digitChar k) \<and> digitChar k \<noteq> CHR ''-'' \<and> digitChar k \<noteq> CHR ''+'' \<and>
         (digitChar k = CHR ''0'' \<longrightarrow> k = 0)"
proof -
  from assms have "k \<in> {0, 1, 2, 3, 4, 5, 6, 7, 8, 9}" by auto
  then show ?thesis by (auto simp add: isWhiteSpace_def digitChar_def)
qed

lemma decimal_no_prefix:
  assumes "decimal n = c # c2 # rest"
  shows "\<not> (c = CHR ''0'' \<and> (c2 = CHR ''x'' \<or> c2 = CHR ''X''))"
proof
  assume x: "c = CHR ''0'' \<and> (c2 = CHR ''x'' \<or> c2 = CHR ''X'')"
  have "parseDigits 10 (c # c2 # rest) None = Some n"
    using parseDigits_decimal[of n] assms by (simp only:)
  moreover have "parseDigits 10 (c # c2 # rest) None = Some 0"
    using x by (auto simp add: digitValue_def)
  ultimately have "n = 0" by simp
  then have "decimal n = [digitChar 0]" by simp
  with assms show False by simp
qed

lemma parseUnsigned_decimal: "parseUnsigned (decimal n) = Some n"
proof (cases "decimal n")
  case Nil
  then show ?thesis using decimal_nonempty[of n] by simp
next
  case (Cons c cs)
  show ?thesis
  proof (cases cs)
    case Nil
    have "parseUnsigned [c] = parseDigits 10 [c] None" by (simp add: parseUnsigned_def)
    then show ?thesis using parseDigits_decimal[of n] Cons Nil by (simp only:)
  next
    case (Cons c2 rest)
    with \<open>decimal n = c # cs\<close> have d: "decimal n = c # c2 # rest" by simp
    have "parseUnsigned (c # c2 # rest) = parseDigits 10 (c # c2 # rest) None"
      using decimal_no_prefix[OF d] by (auto simp add: parseUnsigned_def simp del: parseDigits.simps)
    then show ?thesis using parseDigits_decimal[of n] d by (simp only:)
  qed
qed

lemma parseInt_decimal: "parseInt (decimal n) = Fin (int n)"
proof -
  obtain c cs where d: "decimal n = c # cs"
    using decimal_nonempty[of n] by (cases "decimal n") auto
  obtain k where k: "k < 10" "c = digitChar k"
    using decimal_hd[of n] d by auto
  note p = digitChar_plain[OF k(1)]
  have w: "dropWhile isWhiteSpace (c # cs) = c # cs" using p k(2) by simp
  have "parseInt (c # cs) = (case parseUnsigned (c # cs) of None \<Rightarrow> NaN | Some m \<Rightarrow> Fin (int m))"
    using p k(2) by (simp add: parseInt_def w Let_def)
  then show ?thesis using parseUnsigned_decimal[of n] d by (simp only: option.case)
qed

text \<open>
  Claim C4. When a PDF blob is stored (the single-document path), its download button
  carries the blob and this name: with exactly one file in the list, the file's name
  with its extension replaced by \<open>.pdf\<close>, where the extension is the last dot and the
  characters after it, provided there is at least one and none is a slash (a name
  without such an extension just gets \<open>.pdf\<close> appended); otherwise \<open>images_N_pages.pdf\<close>
  with \<open>N\<close> the number of files in decimal.
\<close>

theorem single_download_name:
  assumes "result st = Some b"
  shows "fst (hd (downloadButtons st)) = b \<and>
         (files st = [u] \<longrightarrow> name (ufile u) = base @ ''.'' @ ext \<longrightarrow> extensionChars ext \<longrightarrow>
            snd (hd (downloadButtons st)) = base @ ''.pdf'') \<and>
         (files st = [u] \<longrightarrow>
            \<not> (\<exists>base ext. name (ufile u) = base @ ''.'' @ ext \<and> extensionChars ext) \<longrightarrow>
            snd (hd (downloadButtons st)) = name (ufile u) @ ''.pdf'') \<and>
         (length (files st) \<noteq> 1 \<longrightarrow>
            snd (hd (downloadButtons st)) =
              ''images_'' @ decimal (length (files st)) @ ''_pages.pdf'' \<and>
            parseInt (decimal (length (files st))) = Fin (int (length (files st))))"
  using assms removeExtension_ext[of ext base] removeExtension_none[of "name (ufile u)"]
    parseInt_decimal[of "length (files st)"]
  by (auto simp add: downloadButtons_def singleFilename_def simp del: decimal.simps)

theorem single_download_name_witness:
  "result oneFileDone = Some pdfBytes \<and> files oneFileDone = [sampleFile 1] \<and>
   name (ufile (sampleFile 1)) = ''scan1'' @ ''.'' @ ''png'' \<and> extensionChars ''png'' \<and>
   fst (hd (downloadButtons oneFileDone)) = pdfBytes \<and>
   snd (hd (downloadButtons oneFileDone)) = ''scan1'' @ ''.pdf''"
proof -
  have h1: "result oneFileDone = Some pdfBytes"
    by (simp add: oneFileDone_def handleConvert_def handleConvert_sync_def initial_state_def
        sampleFiles_def sampleEngine_def succeeded_def resume_single_def js_gt_def Let_def)
  have h2: "files oneFileDone = [sampleFile 1]"
    by (simp add: oneFileDone_def handleConvert_def handleConvert_sync_def initial_state_def
        sampleFiles_def sampleEngine_def succeeded_def resume_single_def js_gt_def Let_def)
  have h3: "name (ufile (sampleFile 1)) = ''scan1'' @ ''.'' @ ''png''"
    by (simp add: sampleFile_def digitChar_def)
  have h4: "extensionChars ''png''" by (simp add: extensionChars_def)
  from single_download_name[OF h1, of "sampleFile 1" "''scan1''" "''png''"] h1 h2 h3 h4
  show ?thesis by blast
qed

text \<open>
  Claim C5. Whenever a batch result is stored, the archive's download button offers
  its \<open>zipBlob\<close> under the name \<open>images_N_pdfs.zip\<close>, with \<open>N\<close> the decimal digits of
  the result's \<open>pdfCount\<close>; and a batch run that succeeds uncancelled renders this
  button and no other.
\<close>

theorem batch_download_name:
  assumes "batchResult st = Some r"
  shows "last (downloadButtons st) = (zipBlob r, ''images_'' @ decimal (pdfCount r) @ ''_pdfs.zip'') \<and>
         parseInt (decimal (pdfCount r)) = Fin (int (pdfCount r)) \<and>
         (result st = None \<longrightarrow>
            downloadButtons st = [(zipBlob r, ''images_'' @ decimal (pdfCount r) @ ''_pdfs.zip'')])"
  using assms parseInt_decimal[of "pdfCount r"]
  by (simp add: downloadButtons_def batchFilename_def split: option.splits del: decimal.simps)

theorem batch_download_name_witness:
  "batchResult batchDone =
     Some \<lparr> zipBlob = pdfBytes @ pdfBytes @ pdfBytes, pdfCount = 3, imageCount = 25 \<rparr> \<and>
   result batchDone = None \<and>
   downloadButtons batchDone = [(pdfBytes @ pdfBytes @ pdfBytes, ''images_3_pdfs.zip'')]"
proof -
  have h1: "1 \<le> length (files (batchOf 25))" by (simp add: batchOf_def sampleFiles_def)
  have h2: "batchMode (batchOf 25)" by (simp add: batchOf_def)
  have h3: "js_gt (Fin (int (length (files (batchOf 25))))) (imagesPerPdf (batchOf 25))"
    by (simp add: batchOf_def sampleFiles_def initial_state_def js_gt_def)
  have h4: "CancelClick \<notin> set []" by simp
  have h5: "imagesToPDFBatch sampleEngine (map ufile (files (batchOf 25))) (imagesPerPdf (batchOf 25))
              (optionsOf (batchOf 25)) =
            Inr \<lparr> out_success = True,
                  out_result = Some \<lparr> zipBlob = pdfBytes @ pdfBytes @ pdfBytes, pdfCount = 3,
                                      imageCount = 25 \<rparr>,
                  out_error_message = None \<rparr>"
    by code_simp
  have s: "batchResult batchDone =
             Some \<lparr> zipBlob = pdfBytes @ pdfBytes @ pdfBytes, pdfCount = 3, imageCount = 25 \<rparr> \<and>
           result batchDone = None"
    using batch_run_success[OF h1 h2 h3 h4 h5] by (simp add: batchDone_def)
  from batch_download_name[of batchDone] s show ?thesis
    by (simp add: digitChar_def)
qed

subsection \<open>The group size\<close>

lemma clamp_range:
  "\<exists>g. clampImagesPerPdf n v = Fin g \<and> 1 \<le> g \<and> g \<le> max 1 (int n)"
  by (cases v) (auto simp add: clampImagesPerPdf_def)

lemma clamp_NaN: "clampImagesPerPdf n NaN = Fin 1"
  by (simp add: clampImagesPerPdf_def)

text \<open>
  Claim C9. With at least one file loaded, whatever is typed into the images-per-PDF
  field (and whatever number \<open>parseInt\<close> makes of it, \<open>NaN\<close> and the infinities
  included), the stored group size is an integer between 1 and the number of files;
  input that \<open>parseInt\<close> reads as \<open>NaN\<close>, the empty string among it, gives 1. The
  initial value and every stored value are integers of at least 1, and in a state
  with such a group size a batch call is handed a group size that is an integer
  between 1 and the number of files it is handed.
\<close>

theorem group_size_clamped:
  assumes "1 \<le> length (files st)"
  shows "(\<exists>g. clampImagesPerPdf (length (files st)) v = Fin g \<and> 1 \<le> g \<and> g \<le> int (length (files st))) \<and>
         (\<exists>g. imagesPerPdf (onChangeImagesPerPdf s st) = Fin g \<and> 1 \<le> g \<and> g \<le> int (length (files st))) \<and>
         (parseInt s = NaN \<longrightarrow> imagesPerPdf (onChangeImagesPerPdf s st) = Fin 1) \<and>
         parseInt [] = NaN \<and>
         groupSizeOk initial_state \<and> groupSizeOk (onChangeImagesPerPdf s st) \<and>
         (groupSizeOk st \<longrightarrow> snd (handleConvert_sync st) = Some (PendingBatch fs g' opts) \<longrightarrow>
            (\<exists>g. g' = Fin g \<and> 1 \<le> g \<and> g \<le> int (length fs)))"
proof (intro conjI impI)
  have m: "max 1 (int (length (files st))) = int (length (files st))"
    using assms by simp
  show "\<exists>g. clampImagesPerPdf (length (files st)) v = Fin g \<and> 1 \<le> g \<and> g \<le> int (length (files st))"
    using clamp_range[of "length (files st)" v] m by simp
  show c: "\<exists>g. imagesPerPdf (onChangeImagesPerPdf s st) = Fin g \<and> 1 \<le> g \<and> g \<le> int (length (files st))"
    using clamp_range[of "length (files st)" "parseInt s"] m by (simp add: onChangeImagesPerPdf_def)
  then show "groupSizeOk (onChangeImagesPerPdf s st)"
    by (auto simp add: groupSizeOk_def)
  show "parseInt [] = NaN" by (simp add: parseInt_def)
  show "groupSizeOk initial_state" by (simp add: groupSizeOk_def initial_state_def)
next
  assume "parseInt s = NaN"
  then show "imagesPerPdf (onChangeImagesPerPdf s st) = Fin 1"
    by (simp add: onChangeImagesPerPdf_def clamp_NaN)
next
  assume ok: "groupSizeOk st"
    and p: "snd (handleConvert_sync st) = Some (PendingBatch fs g' opts)"
  from ok obtain g where g: "imagesPerPdf st = Fin g" "1 \<le> g"
    by (auto simp add: groupSizeOk_def split: jsnum.splits)
  from p sync_started(2)[OF assms] have
    "batchMode st \<and> js_gt (Fin (int (length (files st)))) (imagesPerPdf st) \<and>
     fs = map ufile (files st) \<and> g' = imagesPerPdf st"
    by (auto split: if_splits)
  with g show "\<exists>g. g' = Fin g \<and> 1 \<le> g \<and> g \<le> int (length fs)"
    by (simp add: js_gt_def)
qed

theorem group_size_clamped_witness:
  "1 \<le> length (files (batchOf 25)) \<and>
   parseInt ''abc'' = NaN \<and> imagesPerPdf (onChangeImagesPerPdf ''abc'' (batchOf 25)) = Fin 1 \<and>
   imagesPerPdf (onChangeImagesPerPdf ''400'' (batchOf 25)) = Fin 25 \<and>
   imagesPerPdf (onChangeImagesPerPdf ''-3'' (batchOf 25)) = Fin 1 \<and>
   imagesPerPdf (onChangeImagesPerPdf ''7'' (batchOf 25)) = Fin 7 \<and>
   groupSizeOk (batchOf 25) \<and>
   snd (handleConvert_sync (batchOf 25)) =
     Some (PendingBatch (map ufile (sampleFiles 25)) (Fin 10) defaultOptions)"
proof -
  have h: "1 \<le> length (files (batchOf 25))" by (simp add: batchOf_def sampleFiles_def)
  have n: "parseInt ''abc'' = NaN"
    by (simp add: parseInt_def isWhiteSpace_def parseUnsigned_def digitValue_def)
  have ok: "groupSizeOk (batchOf 25)" by (simp add: groupSizeOk_def batchOf_def initial_state_def)
  have p: "snd (handleConvert_sync (batchOf 25)) =
     Some (PendingBatch (map ufile (sampleFiles 25)) (Fin 10) defaultOptions)"
    by (simp add: handleConvert_sync_def batchOf_def initial_state_def sampleFiles_def
        js_gt_def Let_def optionsOf_def defaultOptions_def)
  have l: "length (files (batchOf 25)) = 25" by (simp add: batchOf_def sampleFiles_def)
  have e1: "imagesPerPdf (onChangeImagesPerPdf ''400'' (batchOf 25)) = Fin 25"
    by (simp add: onChangeImagesPerPdf_def l clampImagesPerPdf_def parseInt_def isWhiteSpace_def
        parseUnsigned_def digitValue_def)
  have e2: "imagesPerPdf (onChangeImagesPerPdf ''-3'' (batchOf 25)) = Fin 1"
    by (simp add: onChangeImagesPerPdf_def l clampImagesPerPdf_def parseInt_def isWhiteSpace_def
        parseUnsigned_def digitValue_def)
  have e3: "imagesPerPdf (onChangeImagesPerPdf ''7'' (batchOf 25)) = Fin 7"
    by (simp add: onChangeImagesPerPdf_def l clampImagesPerPdf_def parseInt_def isWhiteSpace_def
        parseUnsigned_def digitValue_def)
  from group_size_clamped[OF h, of _ "''abc''"] n have
    "imagesPerPdf (onChangeImagesPerPdf ''abc'' (batchOf 25)) = Fin 1" by blast
  with h n ok p e1 e2 e3 show ?thesis by blast
qed

subsection \<open>The number of documents of a batch\<close>

lemma partitionGroups_Nil: "partitionGroups g [] = []"
  by (simp add: partitionGroups.simps)

lemma partitionGroups_step:
  "0 < g \<Longrightarrow> xs \<noteq> [] \<Longrightarrow> partitionGroups g xs = take g xs # partitionGroups g (drop g xs)"
  by (subst partitionGroups.simps) simp

lemma concat_partitionGroups: "0 < g \<Longrightarrow> concat (partitionGroups g xs) = xs"
proof (induction g xs rule: partitionGroups.induct)
  case (1 g xs)
  show ?case
  proof (cases "xs = []")
    case True
    then show ?thesis by (simp add: partitionGroups_Nil)
  next
    case False
    with 1 show ?thesis by (simp add: partitionGroups_step)
  qed
qed

lemma step_div: "0 < (g::nat) \<Longrightarrow> (m + g) div g = m div g + 1"
  by (metis div_add_self2 less_numeral_extra(3) Suc_eq_plus1)

lemma ceil_div_small: "0 < (g::nat) \<Longrightarrow> 0 < n \<Longrightarrow> n \<le> g \<Longrightarrow> (n + g - 1) div g = 1"
proof -
  assume g: "0 < g" and n: "0 < n" "n \<le> g"
  then have e: "n + g - 1 = (n - 1) + g" and l: "n - 1 < g" by linarith+
  have "(n - 1 + g) div g = (n - 1) div g + 1" using g by (rule step_div)
  also have "(n - 1) div g = 0" using l by (rule div_less)
  finally show ?thesis by (simp only: e)
qed

lemma ceil_div_large:
  "0 < (g::nat) \<Longrightarrow> \<not> n \<le> g \<Longrightarrow> (n + g - 1) div g = (n - g + g - 1) div g + 1"
proof -
  assume g: "0 < g" and n: "\<not> n \<le> g"
  then have e: "n + g - 1 = (n - g + g - 1) + g" by linarith
  show ?thesis unfolding e using g by (rule step_div)
qed

lemma length_partitionGroups:
  "0 < g \<Longrightarrow> length (partitionGroups g xs) = (length xs + g - 1) div g"
proof (induction g xs rule: partitionGroups.induct)
  case (1 g xs)
  show ?case
  proof (cases "xs = []")
    case True
    have "(g - 1) div g = 0" using 1(2) by (intro div_less) linarith
    with True show ?thesis by (simp add: partitionGroups_Nil)
  next
    case False
    then have l: "0 < length xs" by simp
    have ih: "length (partitionGroups g (drop g xs)) = (length (drop g xs) + g - 1) div g"
      using 1 False by blast
    have st: "length (partitionGroups g xs) = length (partitionGroups g (drop g xs)) + 1"
      using partitionGroups_step[OF 1(2) False] by simp
    show ?thesis
    proof (cases "length xs \<le> g")
      case True
      have "drop g xs = []" using True by simp
      then have "length (partitionGroups g xs) = 1"
        using st by (simp add: partitionGroups_Nil)
      then show ?thesis using ceil_div_small[OF 1(2) l True] by (simp only:)
    next
      case False
      have "length (drop g xs) = length xs - g" by (rule length_drop)
      with ih have "length (partitionGroups g (drop g xs)) = (length xs - g + g - 1) div g"
        by (simp only:)
      with st show ?thesis using ceil_div_large[OF 1(2) False] by (simp only:)
    qed
  qed
qed

lemma group_sizes:
  "0 < g \<Longrightarrow> grp \<in> set (partitionGroups g xs) \<Longrightarrow> 1 \<le> length grp \<and> length grp \<le> g"
proof (induction g xs rule: partitionGroups.induct)
  case (1 g xs)
  show ?case
  proof (cases "xs = []")
    case True
    with 1(3) show ?thesis by (simp add: partitionGroups_Nil)
  next
    case False
    from 1(3) 1(2) False have "grp = take g xs \<or> grp \<in> set (partitionGroups g (drop g xs))"
      by (simp add: partitionGroups_step)
    then show ?thesis
    proof
      assume "grp = take g xs"
      then show ?thesis using 1(2) False by (cases xs) (simp_all add: min_def)
    next
      assume "grp \<in> set (partitionGroups g (drop g xs))"
      then show ?thesis using 1(1) 1(2) False by blast
    qed
  qed
qed

lemma ceiling_div_nat:
  assumes "0 < g"
  shows "\<lceil>real n / real g\<rceil> = int ((n + g - 1) div g)"
proof -
  define q where "q = (n + g - 1) div g"
  define r where "r = (n + g - 1) mod g"
  have d: "n + g - 1 = q * g + r" by (simp add: q_def r_def)
  have r: "r < g" using assms by (simp add: r_def)
  from d r assms have u: "n \<le> q * g" by linarith
  from d assms have l: "q * g < n + g" by linarith
  have g0: "0 < real g" using assms by simp
  have "real n \<le> real (q * g)" using u by (simp only: of_nat_le_iff)
  then have "real n / real g \<le> real q" using g0 by (simp add: pos_divide_le_eq)
  moreover
  have "real (q * g) < real (n + g)" using l by (simp only: of_nat_less_iff)
  then have "(real q - 1) * real g < real n" by (simp add: algebra_simps)
  then have "real q - 1 < real n / real g" using g0 by (simp add: pos_less_divide_eq)
  ultimately have "\<lceil>real n / real g\<rceil> = int q" by (simp add: ceiling_eq_iff)
  then show ?thesis by (simp only: q_def)
qed

lemma buildAll_length: "buildAll build xs = Inr ds \<Longrightarrow> length ds = length xs"
  by (induction xs arbitrary: ds) (auto split: sum.splits)

lemma buildAll_total:
  "(\<And>x. x \<in> set xs \<Longrightarrow> \<exists>d. build x = Inr d) \<Longrightarrow> \<exists>ds. buildAll build xs = Inr ds"
proof (induction xs)
  case Nil
  show ?case by simp
next
  case (Cons x xs)
  then obtain d ds where "build x = Inr d" "buildAll build xs = Inr ds"
    by (meson list.set_intros)
  then show ?case by simp
qed

text \<open>
  Claim C2. For a non-empty file list and a group size of at least 1, the batch
  orchestrator of the specification partitions the files into
  \<open>ceil(imageCount / groupSize)\<close> consecutive groups that together are the file list;
  a run that returns a result reports that number as \<open>pdfCount\<close> and the number of
  files as \<open>imageCount\<close>, and a run in which every document builds does return one.
  The number the component's hint announces (line 523) is the same. With 25 files
  and group size 10 there are 3 documents, of 10, 10 and 5 images.
\<close>

theorem batch_pdf_count:
  assumes "fs \<noteq> []" and "1 \<le> g"
  shows "int (length (partitionGroups (nat g) fs)) = \<lceil>real (length fs) / real_of_int g\<rceil> \<and>
         concat (partitionGroups (nat g) fs) = fs \<and>
         (convertBatch build pack fs g = Inr r \<longrightarrow>
            imageCount r = length fs \<and>
            int (pdfCount r) = \<lceil>real (imageCount r) / real_of_int g\<rceil>) \<and>
         ((\<forall>grp. \<exists>d. build grp = Inr d) \<longrightarrow> (\<exists>r'. convertBatch build pack fs g = Inr r')) \<and>
         batchModeHint (length fs) (Fin g) = Fin \<lceil>real (length fs) / real_of_int g\<rceil>"
proof -
  have g0: "0 < nat g" using assms(2) by simp
  have rg: "real (nat g) = real_of_int g" using assms(2) by simp
  have len: "int (length (partitionGroups (nat g) fs)) = \<lceil>real (length fs) / real_of_int g\<rceil>"
    using ceiling_div_nat[OF g0, of "length fs"] length_partitionGroups[OF g0, of fs]
    by (simp only: rg)
  have cat: "concat (partitionGroups (nat g) fs) = fs"
    using g0 by (rule concat_partitionGroups)
  have res: "convertBatch build pack fs g = Inr r \<longrightarrow>
            imageCount r = length fs \<and>
            int (pdfCount r) = \<lceil>real (imageCount r) / real_of_int g\<rceil>"
  proof
    assume c: "convertBatch build pack fs g = Inr r"
    then obtain docs where docs: "buildAll build (partitionGroups (nat g) fs) = Inr docs"
      and r: "r = \<lparr> zipBlob = pack docs, pdfCount = length docs, imageCount = length fs \<rparr>"
      using assms by (auto simp add: convertBatch_def split: sum.splits)
    have "length docs = length (partitionGroups (nat g) fs)"
      using docs by (rule buildAll_length)
    with len r show "imageCount r = length fs \<and>
            int (pdfCount r) = \<lceil>real (imageCount r) / real_of_int g\<rceil>"
      by simp
  qed
  have tot: "(\<forall>grp. \<exists>d. build grp = Inr d) \<longrightarrow> (\<exists>r'. convertBatch build pack fs g = Inr r')"
  proof
    assume "\<forall>grp. \<exists>d. build grp = Inr d"
    then obtain docs where "buildAll build (partitionGroups (nat g) fs) = Inr docs"
      using buildAll_total[of "partitionGroups (nat g) fs" build] by blast
    then show "\<exists>r'. convertBatch build pack fs g = Inr r'"
      using assms by (simp add: convertBatch_def)
  qed
  have hint: "batchModeHint (length fs) (Fin g) = Fin \<lceil>real (length fs) / real_of_int g\<rceil>"
    using assms(2) by (simp add: batchModeHint_def)
  from len cat res tot hint show ?thesis by blast
qed

theorem batch_pdf_count_witness:
  "map ufile (sampleFiles 25) \<noteq> [] \<and> (1::int) \<le> 10 \<and>
   length (partitionGroups (nat 10) (map ufile (sampleFiles 25))) = 3 \<and>
   map length (partitionGroups (nat 10) (map ufile (sampleFiles 25))) = [10, 10, 5] \<and>
   batchModeHint (length (map ufile (sampleFiles 25))) (Fin 10) = Fin 3"
proof -
  have h1: "map ufile (sampleFiles 25) \<noteq> []" by (simp add: sampleFiles_def)
  have h2: "(1::int) \<le> 10" by simp
  have l: "length (map ufile (sampleFiles 25)) = 25" by (simp add: sampleFiles_def)
  have c: "\<lceil>real 25 / real_of_int 10\<rceil> = 3" by simp
  have m: "map length (partitionGroups (nat 10) (map ufile (sampleFiles 25))) = [10, 10, 5]"
    by code_simp
  from batch_pdf_count[OF h1 h2] have
    "int (length (partitionGroups (nat 10) (map ufile (sampleFiles 25)))) = 3" and
    "batchModeHint (length (map ufile (sampleFiles 25))) (Fin 10) = Fin 3"
    by (simp_all only: l c)
  with h1 h2 m show ?thesis by simp
qed

end
